theory Spec2Isabelle
  imports Complex_Main "HOL-Library.Multiset"
begin

section \<open>Data model\<close>

text \<open>
  The TypeScript type \<open>number\<close> is embedded as \<^typ>\<open>real\<close> wherever the source stores
  a value that may be fractional (prices, filter bounds, comparator results). The values
  \<open>NaN\<close> and \<open>\<plusminus>Infinity\<close> have no counterpart here: every number of the model is
  finite. Counters that the source builds from \<open>length\<close>, \<open>parseInt\<close> of digit strings or
  \<open>++\<close> are natural numbers.
\<close>

type_synonym number = real

text \<open>
  A JavaScript \<open>Date\<close>. The engine derives both readings from the parsed instant, the
  hour of day according to the local time zone; the model keeps the readings that the
  program consumes (milliseconds since the epoch, local hour of day, ISO text) and does
  not relate them.
\<close>

record jsdate =
  getTime :: int
  getHours :: nat
  toISOString :: string

text \<open>The field \<open>at\<close> of a departure or an arrival is written \<open>at_text\<close>.\<close>

record endpoint =
  iataCode :: string
  at_text :: string

record segment =
  departure :: endpoint
  arrival :: endpoint
  carrierCode :: string

record itinerary =
  duration :: string
  segments :: "segment list"

record offer_price =
  total :: string
  currency :: string

record flight_offer =
  offer_id :: string
  itineraries :: "itinerary list"
  price :: offer_price

text \<open>
  \<open>ProcessedFlight\<close> is the raw offer (the spread \<open>...offer\<close>) extended by the
  computed fields. \<open>totalStops\<close> is \<open>segments.length - 1\<close> of a first itinerary that
  has at least one segment (otherwise \<open>processFlightOffer\<close> throws before the object
  exists), hence a natural number.
\<close>

record processed_flight =
  offer :: flight_offer
  totalDuration :: nat
  totalStops :: nat
  mainAirline :: string
  departureTime :: jsdate
  arrivalTime :: jsdate
  priceNumeric :: number

text \<open>
  \<open>FilterState\<close>. Its field \<open>duration\<close> is written \<open>duration_range\<close>, and the
  \<open>id\<close> of an offer \<open>offer_id\<close>, to keep them apart from the itinerary's
  \<open>duration\<close> and from the identity function.
\<close>

record filter_state =
  priceRange :: "number \<times> number"
  stops :: "string list"
  airlines :: "string list"
  departureTimeRange :: "number \<times> number"
  arrivalTimeRange :: "number \<times> number"
  duration_range :: "number \<times> number"

section \<open>FilterEngine\<close>

text \<open>\<open>Array.prototype.includes\<close> on an array of strings: a scan from the left.\<close>

fun array_includes :: "'a list \<Rightarrow> 'a \<Rightarrow> bool" where
  "array_includes [] v = False"
| "array_includes (x # xs) v = (if x = v then True else array_includes xs v)"

text \<open>The conditional expression that names the stop bucket of a flight.\<close>

definition stopCategory :: "processed_flight \<Rightarrow> string" where
  "stopCategory flight =
     (if totalStops flight = 0 then ''0''
      else if totalStops flight = 1 then ''1'' else ''2+'')"

text \<open>
  The callback of \<open>flights.filter\<close> in \<open>applyFilters\<close>: a chain of early
  \<open>return false\<close> statements, in the order of the source.
\<close>

definition keepFlight :: "filter_state \<Rightarrow> processed_flight \<Rightarrow> bool" where
  "keepFlight filters flight =
     (if priceNumeric flight < fst (priceRange filters)
         \<or> priceNumeric flight > snd (priceRange filters) then False
      else if length (stops filters) > 0
         \<and> \<not> array_includes (stops filters) (stopCategory flight) then False
      else if length (airlines filters) > 0
         \<and> \<not> array_includes (airlines filters) (mainAirline flight) then False
      else if real (getHours (departureTime flight)) < fst (departureTimeRange filters)
         \<or> real (getHours (departureTime flight)) > snd (departureTimeRange filters) then False
      else if real (getHours (arrivalTime flight)) < fst (arrivalTimeRange filters)
         \<or> real (getHours (arrivalTime flight)) > snd (arrivalTimeRange filters) then False
      else if real (totalDuration flight) < fst (duration_range filters)
         \<or> real (totalDuration flight) > snd (duration_range filters) then False
      else True)"

definition applyFilters :: "processed_flight list \<Rightarrow> filter_state \<Rightarrow> processed_flight list" where
  "applyFilters flights filters = filter (keepFlight filters) flights"



section \<open>SortEngine\<close>

datatype sort_field = Price | Duration | Departure

datatype sort_direction = Asc | Desc

text \<open>The \<open>switch\<close> of the comparator in \<open>useFlightSort\<close>.\<close>

definition comparison :: "sort_field \<Rightarrow> processed_flight \<Rightarrow> processed_flight \<Rightarrow> number" where
  "comparison sortField a b =
     (case sortField of
        Price \<Rightarrow> priceNumeric a - priceNumeric b
      | Duration \<Rightarrow> real (totalDuration a) - real (totalDuration b)
      | Departure \<Rightarrow> real_of_int (getTime (departureTime a)) - real_of_int (getTime (departureTime b)))"

definition compareFlights ::
  "sort_field \<Rightarrow> sort_direction \<Rightarrow> processed_flight \<Rightarrow> processed_flight \<Rightarrow> number" where
  "compareFlights sortField sortDirection a b =
     (if sortDirection = Asc then comparison sortField a b else - comparison sortField a b)"

text \<open>
  \<open>Array.prototype.sort\<close> with a comparator. ECMAScript (since 2019) requires the
  sort to be stable, and for a consistent comparator the sorted, stable permutation is
  unique; the model computes it by insertion from the right, where an element is put
  in front of the first element it does not exceed.
\<close>

fun insert_by :: "('a \<Rightarrow> 'a \<Rightarrow> number) \<Rightarrow> 'a \<Rightarrow> 'a list \<Rightarrow> 'a list" where
  "insert_by cmp x [] = [x]"
| "insert_by cmp x (y # ys) = (if cmp x y \<le> 0 then x # y # ys else y # insert_by cmp x ys)"

fun array_sort :: "('a \<Rightarrow> 'a \<Rightarrow> number) \<Rightarrow> 'a list \<Rightarrow> 'a list" where
  "array_sort cmp [] = []"
| "array_sort cmp (x # xs) = insert_by cmp x (array_sort cmp xs)"

text \<open>The value of \<open>sortedFlights\<close> for an input array given by its contents.\<close>

definition sortedFlights ::
  "processed_flight list \<Rightarrow> sort_field \<Rightarrow> sort_direction \<Rightarrow> processed_flight list" where
  "sortedFlights flights sortField sortDirection =
     array_sort (compareFlights sortField sortDirection) flights"

text \<open>
  Arrays are objects that \<open>sort\<close> changes in place. To tell the input array from the
  returned one, a store holds the contents of every allocated array; a reference is an
  index into the store. The spread \<open>[...flights]\<close> allocates a new array with the same
  contents, \<open>sorted.sort(...)\<close> overwrites the contents of that array.
\<close>

type_synonym array_store = "processed_flight list list"

definition spread_copy :: "array_store \<Rightarrow> nat \<Rightarrow> array_store \<times> nat" where
  "spread_copy st r = (st @ [st ! r], length st)"

definition sort_in_place ::
  "(processed_flight \<Rightarrow> processed_flight \<Rightarrow> number) \<Rightarrow> array_store \<Rightarrow> nat \<Rightarrow> array_store" where
  "sort_in_place cmp st r = st[r := array_sort cmp (st ! r)]"

definition sortedFlights_store ::
  "array_store \<Rightarrow> nat \<Rightarrow> sort_field \<Rightarrow> sort_direction \<Rightarrow> array_store \<times> nat" where
  "sortedFlights_store st flights sortField sortDirection =
     (let (st1, sorted) = spread_copy st flights;
          st2 = sort_in_place (compareFlights sortField sortDirection) st1 sorted
      in (st2, sorted))"

text \<open>The sort key that the specification speaks of, per field.\<close>

definition sort_key_of :: "sort_field \<Rightarrow> processed_flight \<Rightarrow> number" where
  "sort_key_of sortField f =
     (case sortField of
        Price \<Rightarrow> priceNumeric f
      | Duration \<Rightarrow> real (totalDuration f)
      | Departure \<Rightarrow> real_of_int (getTime (departureTime f)))"

text \<open>Flights for the concrete scenarios: an identifier, a price, a stop count, a duration.\<close>

definition sample_flight :: "string \<Rightarrow> number \<Rightarrow> nat \<Rightarrow> nat \<Rightarrow> processed_flight" where
  "sample_flight ident p s d =
     \<lparr> offer = \<lparr> offer_id = ident, itineraries = [],
                  price = \<lparr> total = [], currency = ''USD'' \<rparr> \<rparr>,
       totalDuration = d, totalStops = s, mainAirline = ''BA'',
       departureTime = \<lparr> getTime = 0, getHours = 8, toISOString = ''2024-03-15T08:00:00.000Z'' \<rparr>,
       arrivalTime = \<lparr> getTime = 0, getHours = 11, toISOString = ''2024-03-15T11:00:00.000Z'' \<rparr>,
       priceNumeric = p \<rparr>"

text \<open>Five distinct flights, all priced 120, in the order in which they are given to the sort.\<close>

definition five_flights_120 :: "processed_flight list" where
  "five_flights_120 =
     [sample_flight ''F1'' 120 0 60, sample_flight ''F2'' 120 1 90,
      sample_flight ''F3'' 120 0 45, sample_flight ''F4'' 120 2 300,
      sample_flight ''F5'' 120 1 120]"

section \<open>Filter bounds and the active-filter flag\<close>

text \<open>
  \<open>Math.min(x, ...xs)\<close> and \<open>Math.max(x, ...xs)\<close> for at least one argument. Every
  call of the source sits behind a guard that returns early on an empty array; the
  model takes that guard as the case distinction on the array.
\<close>

fun math_min :: "number \<Rightarrow> number list \<Rightarrow> number" where
  "math_min x [] = x"
| "math_min x (y # ys) = math_min (min x y) ys"

fun math_max :: "number \<Rightarrow> number list \<Rightarrow> number" where
  "math_max x [] = x"
| "math_max x (y # ys) = math_max (max x y) ys"

definition getPriceRange :: "processed_flight list \<Rightarrow> number \<times> number" where
  "getPriceRange flights =
     (case map priceNumeric flights of
        [] \<Rightarrow> (0, 1000)
      | p # prices \<Rightarrow>
          (of_int \<lfloor>math_min p prices\<rfloor>, of_int \<lceil>math_max p prices\<rceil>))"

definition getDurationRange :: "processed_flight list \<Rightarrow> number \<times> number" where
  "getDurationRange flights =
     (case map (\<lambda>f. real (totalDuration f)) flights of
        [] \<Rightarrow> (0, 1440)
      | d # durations \<Rightarrow>
          (of_int \<lfloor>math_min d durations\<rfloor>, of_int \<lceil>math_max d durations\<rceil>))"

text \<open>
  The expression returned as \<open>hasActiveFilters\<close> by \<open>useFlightFilters\<close>;
  \<open>initialPriceRange\<close> and \<open>initialDurationRange\<close> are recomputed from the current
  flights.
\<close>

definition hasActiveFilters :: "filter_state \<Rightarrow> processed_flight list \<Rightarrow> bool" where
  "hasActiveFilters filters flights =
     (let initialPriceRange = getPriceRange flights;
          initialDurationRange = getDurationRange flights
      in length (stops filters) > 0
         \<or> length (airlines filters) > 0
         \<or> fst (priceRange filters) \<noteq> fst initialPriceRange
         \<or> snd (priceRange filters) \<noteq> snd initialPriceRange
         \<or> fst (departureTimeRange filters) \<noteq> 0
         \<or> snd (departureTimeRange filters) \<noteq> 23
         \<or> fst (arrivalTimeRange filters) \<noteq> 0
         \<or> snd (arrivalTimeRange filters) \<noteq> 23
         \<or> fst (duration_range filters) \<noteq> fst initialDurationRange
         \<or> snd (duration_range filters) \<noteq> snd initialDurationRange)"

text \<open>The filter state that \<open>useState\<close> and \<open>resetFilters\<close> build from the bounds.\<close>

definition defaultFilters :: "processed_flight list \<Rightarrow> filter_state" where
  "defaultFilters flights =
     \<lparr> priceRange = getPriceRange flights, stops = [], airlines = [],
       departureTimeRange = (0, 23), arrivalTimeRange = (0, 23),
       duration_range = getDurationRange flights \<rparr>"

text \<open>
  The no-op defaults in the words of the specification: for price and duration the
  minimum and the maximum observed across the flights, a fixed pair when there are none.
\<close>

definition spec_default_range ::
  "number \<times> number \<Rightarrow> number list \<Rightarrow> number \<times> number" where
  "spec_default_range fallback vs =
     (if vs = [] then fallback else (Min (set vs), Max (set vs)))"

definition spec_hasActiveFilters :: "filter_state \<Rightarrow> processed_flight list \<Rightarrow> bool" where
  "spec_hasActiveFilters filters flights \<longleftrightarrow>
     stops filters \<noteq> []
     \<or> airlines filters \<noteq> []
     \<or> departureTimeRange filters \<noteq> (0, 23)
     \<or> arrivalTimeRange filters \<noteq> (0, 23)
     \<or> priceRange filters \<noteq> spec_default_range (0, 1000) (map priceNumeric flights)
     \<or> duration_range filters
          \<noteq> spec_default_range (0, 1440) (map (\<lambda>f. real (totalDuration f)) flights)"

text \<open>
  The defaults as the code computes them: the minimum rounded down and the maximum
  rounded up to whole numbers.
\<close>

definition rounded_default_range ::
  "number \<times> number \<Rightarrow> number list \<Rightarrow> number \<times> number" where
  "rounded_default_range fallback vs =
     (if vs = [] then fallback
      else (of_int \<lfloor>Min (set vs)\<rfloor>, of_int \<lceil>Max (set vs)\<rceil>))"

section \<open>Page window\<close>

text \<open>
  \<open>Array.prototype.slice(start, stop)\<close> for integral arguments: a negative index counts
  from the end, both indices are clamped to the array, and an empty range gives the
  empty array.
\<close>

definition array_slice :: "'a list \<Rightarrow> int \<Rightarrow> int \<Rightarrow> 'a list" where
  "array_slice xs start stop =
     (let len = int (length xs);
          k = (if start < 0 then max (len + start) 0 else min start len);
          final = (if stop < 0 then max (len + stop) 0 else min stop len)
      in take (nat (final - k)) (drop (nat k) xs))"

definition pageSize :: int where
  "pageSize = 10"

definition totalFilteredPages :: "'a list \<Rightarrow> int" where
  "totalFilteredPages sortedList = \<lceil>real (length sortedList) / real_of_int pageSize\<rceil>"

definition paginatedSortedFlights :: "'a list \<Rightarrow> int \<Rightarrow> 'a list" where
  "paginatedSortedFlights sortedList currentPage =
     (let startIdx = (currentPage - 1) * pageSize;
          endIdx = startIdx + pageSize
      in array_slice sortedList startIdx endIdx)"

text \<open>The \<open>hasNextPage\<close> property handed to the pagination controls.\<close>

definition hasNextPage :: "'a list \<Rightarrow> int \<Rightarrow> bool" where
  "hasNextPage sortedList currentPage \<longleftrightarrow> currentPage < totalFilteredPages sortedList"

text \<open>Twenty-three flights with pairwise different prices 100, 110, \<dots>, 320.\<close>

definition flights_23 :: "processed_flight list" where
  "flights_23 = map (\<lambda>i. sample_flight ''F'' (100 + 10 * real i) 0 60) [0..<23]"

section \<open>The search page and its state\<close>

text \<open>
  The search parameters that the route validates; a missing one is \<open>undefined\<close> in the
  source and \<open>None\<close> here.
\<close>

record search_params =
  origin :: "string option"
  destination :: "string option"
  departureDate :: "string option"
  returnDate :: "string option"
  adults :: nat
  currencyCode :: "string option"

text \<open>
  The state that \<open>FlightSearchPage\<close> and its hooks hold between renders: the search
  parameters of the URL, the page index, the fetched and normalised flights, the filter
  state and the sort state.
\<close>

record page_state =
  searchParams :: search_params
  currentPage :: int
  allFlights :: "processed_flight list"
  filters :: filter_state
  sortField :: sort_field
  sortDirection :: sort_direction

text \<open>\<open>updateFilter(key, value)\<close>: one constructor per key of the filter state.\<close>

datatype filter_update =
    SetPriceRange "number \<times> number"
  | SetStops "string list"
  | SetAirlines "string list"
  | SetDepartureTimeRange "number \<times> number"
  | SetArrivalTimeRange "number \<times> number"
  | SetDuration "number \<times> number"

fun updateFilter :: "filter_update \<Rightarrow> filter_state \<Rightarrow> filter_state" where
  "updateFilter (SetPriceRange v) prev = prev\<lparr>priceRange := v\<rparr>"
| "updateFilter (SetStops v) prev = prev\<lparr>stops := v\<rparr>"
| "updateFilter (SetAirlines v) prev = prev\<lparr>airlines := v\<rparr>"
| "updateFilter (SetDepartureTimeRange v) prev = prev\<lparr>departureTimeRange := v\<rparr>"
| "updateFilter (SetArrivalTimeRange v) prev = prev\<lparr>arrivalTimeRange := v\<rparr>"
| "updateFilter (SetDuration v) prev = prev\<lparr>duration_range := v\<rparr>"

text \<open>
  What can happen to the page: the URL search changes (\<open>handleSearch\<close>), a fetch
  delivers flights, the filter panel updates or resets the filters, a sort control is
  clicked, the pagination controls call \<open>onPageChange\<close>.
\<close>

datatype page_event =
    Navigate search_params
  | FlightsLoaded "processed_flight list"
  | UpdateFilter filter_update
  | ResetFilters
  | ToggleSort sort_field
  | PageChange int

text \<open>
  The state after an event, once the effects have run. The only effect that writes the
  page index is \<open>useEffect(() => setCurrentPage(1), [origin, destination,
  departureDate])\<close>, which runs when one of its three dependencies has changed.
\<close>

fun page_step :: "page_state \<Rightarrow> page_event \<Rightarrow> page_state" where
  "page_step s (Navigate params) =
     (if origin params \<noteq> origin (searchParams s)
         \<or> destination params \<noteq> destination (searchParams s)
         \<or> departureDate params \<noteq> departureDate (searchParams s)
      then s\<lparr>searchParams := params, currentPage := 1\<rparr>
      else s\<lparr>searchParams := params\<rparr>)"
| "page_step s (FlightsLoaded flights) = s\<lparr>allFlights := flights\<rparr>"
| "page_step s (UpdateFilter u) = s\<lparr>filters := updateFilter u (filters s)\<rparr>"
| "page_step s ResetFilters = s\<lparr>filters := defaultFilters (allFlights s)\<rparr>"
| "page_step s (ToggleSort field) =
     (if field = sortField s
      then s\<lparr>sortDirection := (if sortDirection s = Asc then Desc else Asc)\<rparr>
      else s\<lparr>sortField := field, sortDirection := Asc\<rparr>)"
| "page_step s (PageChange page) = s\<lparr>currentPage := page\<rparr>"

text \<open>What a render derives from the state.\<close>

definition filteredFlights :: "page_state \<Rightarrow> processed_flight list" where
  "filteredFlights s = applyFilters (allFlights s) (filters s)"

definition sortedView :: "page_state \<Rightarrow> processed_flight list" where
  "sortedView s = sortedFlights (filteredFlights s) (sortField s) (sortDirection s)"

definition pageFlights :: "page_state \<Rightarrow> processed_flight list" where
  "pageFlights s = paginatedSortedFlights (sortedView s) (currentPage s)"

text \<open>
  A page state for the scenarios: twenty-three flights fetched, no filter active, the
  third page shown.
\<close>

definition lhr_jfk :: search_params where
  "lhr_jfk = \<lparr> origin = Some ''LHR'', destination = Some ''JFK'',
               departureDate = Some ''2024-03-15'', returnDate = None, adults = 1,
               currencyCode = None \<rparr>"

definition on_page_3 :: page_state where
  "on_page_3 = \<lparr> searchParams = lhr_jfk, currentPage = 3, allFlights = flights_23,
                 filters = defaultFilters flights_23, sortField = Price,
                 sortDirection = Asc \<rparr>"

text \<open>The same page after the price filter has been narrowed to the five cheapest flights.\<close>

definition narrowed_to_5 :: page_state where
  "narrowed_to_5 = page_step on_page_3 (UpdateFilter (SetPriceRange (100, 140)))"

text \<open>Two flights with fractional prices 99.50 and 200.25.\<close>

definition fractional_flights :: "processed_flight list" where
  "fractional_flights = [sample_flight ''H1'' (199 / 2) 0 60, sample_flight ''H2'' (801 / 4) 1 95]"

section \<open>Normalizer\<close>

text \<open>
  \<open>parseDuration\<close> matches \<open>/PT(\d+H)?(\d+M)?/\<close>. The match starts at the first
  occurrence of \<open>PT\<close> (both groups are optional, so the first occurrence always
  matches); a group takes part when a non-empty run of digits is followed by its unit
  letter. Without a match the function returns 0.
\<close>

definition is_digit :: "char \<Rightarrow> bool" where
  "is_digit c \<longleftrightarrow> c \<in> set ''0123456789''"

fun after_PT :: "string \<Rightarrow> string option" where
  "after_PT (a # b # cs) =
     (if a = CHR ''P'' \<and> b = CHR ''T'' then Some cs else after_PT (b # cs))"
| "after_PT cs = None"

definition regex_group :: "char \<Rightarrow> string \<Rightarrow> string option \<times> string" where
  "regex_group unit_letter s =
     (let ds = takeWhile is_digit s; rest = dropWhile is_digit s
      in case rest of
           [] \<Rightarrow> (None, s)
         | u # rest' \<Rightarrow>
             if ds \<noteq> [] \<and> u = unit_letter then (Some (ds @ [u]), rest') else (None, s))"

text \<open>\<open>parseInt\<close> of a text that begins with a digit: the value of its leading digits.\<close>

definition parseInt :: "string \<Rightarrow> nat" where
  "parseInt s = foldl (\<lambda>n c. 10 * n + (of_char c - 48)) 0 (takeWhile is_digit s)"

definition parseDuration :: "string \<Rightarrow> nat" where
  "parseDuration d =
     (case after_PT d of
        None \<Rightarrow> 0
      | Some rest \<Rightarrow>
          (let (g1, rest1) = regex_group CHR ''H'' rest;
               (g2, rest2) = regex_group CHR ''M'' rest1;
               hours = (case g1 of Some g \<Rightarrow> parseInt g | None \<Rightarrow> 0);
               minutes = (case g2 of Some g \<Rightarrow> parseInt g | None \<Rightarrow> 0)
           in hours * 60 + minutes))"

text \<open>
  The two built-in functions that \<open>processFlightOffer\<close> applies to texts of the offer,
  the \<open>Date\<close> constructor and \<open>parseFloat\<close>, are parameters of the model.
\<close>

record js_builtins =
  newDate :: "string \<Rightarrow> jsdate"
  parseFloat :: "string \<Rightarrow> number"

text \<open>The exception of a property read on \<open>undefined\<close>.\<close>

datatype js_error = TypeError

text \<open>
  \<open>processFlightOffer\<close>. Indexing an empty array gives \<open>undefined\<close>;
  \<open>firstItinerary.segments\<close> and \<open>firstSegment.carrierCode\<close> then throw. Nothing in
  the function catches.
\<close>

definition processFlightOffer :: "js_builtins \<Rightarrow> flight_offer \<Rightarrow> js_error + processed_flight" where
  "processFlightOffer js off =
     (case itineraries off of
        [] \<Rightarrow> Inl TypeError
      | firstItinerary # _ \<Rightarrow>
          (case segments firstItinerary of
             [] \<Rightarrow> Inl TypeError
           | firstSegment # _ \<Rightarrow>
               (let lastSegment = last (segments firstItinerary);
                    totalDuration =
                      foldl (\<lambda>total it. total + parseDuration (duration it)) 0 (itineraries off);
                    totalStops = length (segments firstItinerary) - 1
                in Inr \<lparr> offer = off,
                         totalDuration = totalDuration,
                         totalStops = totalStops,
                         mainAirline = carrierCode firstSegment,
                         departureTime = newDate js (at_text (departure firstSegment)),
                         arrivalTime = newDate js (at_text (arrival lastSegment)),
                         priceNumeric = parseFloat js (total (price off)) \<rparr>)))"

text \<open>
  \<open>Array.prototype.map\<close> with a callback that may throw: the first exception leaves
  the loop and no array is returned.
\<close>

fun array_map :: "('a \<Rightarrow> js_error + 'b) \<Rightarrow> 'a list \<Rightarrow> js_error + 'b list" where
  "array_map f [] = Inr []"
| "array_map f (x # xs) =
     (case f x of
        Inl e \<Rightarrow> Inl e
      | Inr y \<Rightarrow> (case array_map f xs of Inl e \<Rightarrow> Inl e | Inr ys \<Rightarrow> Inr (y # ys)))"

text \<open>
  \<open>processedFlights\<close> of \<open>useFlightSearch\<close>; the argument is \<open>rawData?.data\<close>,
  \<open>None\<close> while there is no response.
\<close>

definition processedFlights ::
  "js_builtins \<Rightarrow> flight_offer list option \<Rightarrow> js_error + processed_flight list" where
  "processedFlights js rawData =
     (case rawData of
        None \<Rightarrow> Inr []
      | Some offers \<Rightarrow> array_map (processFlightOffer js) offers)"

text \<open>
  The offers that the specification calls malformed by missing segments: no itinerary,
  or a first itinerary without segments.
\<close>

definition missing_segments :: "flight_offer \<Rightarrow> bool" where
  "missing_segments off \<longleftrightarrow>
     (case itineraries off of [] \<Rightarrow> True | it # _ \<Rightarrow> segments it = [])"

text \<open>Offers and built-ins for the scenarios.\<close>

definition sample_builtins :: js_builtins where
  "sample_builtins =
     \<lparr> newDate = (\<lambda>s. \<lparr> getTime = 0, getHours = 8, toISOString = s \<rparr>),
       parseFloat = (\<lambda>s. 120) \<rparr>"

definition sample_segment :: segment where
  "sample_segment =
     \<lparr> departure = \<lparr> iataCode = ''LHR'', at_text = ''2024-03-15T08:00:00'' \<rparr>,
       arrival = \<lparr> iataCode = ''JFK'', at_text = ''2024-03-15T16:30:00'' \<rparr>,
       carrierCode = ''BA'' \<rparr>"

definition good_offer :: flight_offer where
  "good_offer =
     \<lparr> offer_id = ''1'',
       itineraries = [\<lparr> duration = ''PT8H30M'', segments = [sample_segment] \<rparr>],
       price = \<lparr> total = ''120.00'', currency = ''USD'' \<rparr> \<rparr>"

definition offer_without_segments :: flight_offer where
  "offer_without_segments =
     \<lparr> offer_id = ''2'',
       itineraries = [\<lparr> duration = ''PT8H30M'', segments = [] \<rparr>],
       price = \<lparr> total = ''120.00'', currency = ''USD'' \<rparr> \<rparr>"

definition offer_with_bad_duration :: flight_offer where
  "offer_with_bad_duration =
     \<lparr> offer_id = ''3'',
       itineraries = [\<lparr> duration = ''8 hours'', segments = [sample_segment] \<rparr>],
       price = \<lparr> total = ''120.00'', currency = ''USD'' \<rparr> \<rparr>"

section \<open>PriceAggregator\<close>

record price_data_point =
  pd_price :: number
  pd_date :: string
  pd_airline :: string
  pd_stops :: nat

record price_trend =
  current :: "price_data_point list"
  filtered :: "price_data_point list"
  lowest :: number
  highest :: number
  average :: number




text \<open>
  The buckets of \<open>chartData\<close>: an object that maps a bucket start to its two counters,
  kept as the list of its properties in insertion order.
\<close>

record bucket_counts =
  n_all :: nat
  n_filtered :: nat

type_synonym buckets = "(int \<times> bucket_counts) list"

record chart_point =
  cp_price :: number
  cp_allFlights :: nat
  cp_filtered :: nat

definition bucketSize :: int where
  "bucketSize = 50"

text \<open>\<open>Math.floor(price / bucketSize) * bucketSize\<close>.\<close>

definition bucket_of :: "number \<Rightarrow> int" where
  "bucket_of p = \<lfloor>p / real_of_int bucketSize\<rfloor> * bucketSize"

text \<open>The loop \<open>for (let i = min; i <= max; i += bucketSize) buckets[i] = {all: 0, filtered: 0}\<close>.\<close>

function bucket_loop :: "int \<Rightarrow> int \<Rightarrow> buckets" where
  "bucket_loop i mx =
     (if i \<le> mx then (i, \<lparr> n_all = 0, n_filtered = 0 \<rparr>) # bucket_loop (i + bucketSize) mx
      else [])"
  by pat_completeness auto
termination
  by (relation "measure (\<lambda>(i, mx). nat (mx + 1 - i))") (auto simp add: bucketSize_def)

declare bucket_loop.simps [simp del]

text \<open>
  \<open>if (buckets[bucket]) buckets[bucket].all++\<close>: the counters of an existing bucket are
  changed in place, a price whose bucket does not exist is passed over.
\<close>

fun bump :: "(bucket_counts \<Rightarrow> bucket_counts) \<Rightarrow> int \<Rightarrow> buckets \<Rightarrow> buckets" where
  "bump f b [] = []"
| "bump f b ((k, c) # rest) = (if k = b then (k, f c) # rest else (k, c) # bump f b rest)"

definition count_all :: "buckets \<Rightarrow> number \<Rightarrow> buckets" where
  "count_all bs p = bump (\<lambda>c. c\<lparr>n_all := n_all c + 1\<rparr>) (bucket_of p) bs"

definition count_filtered :: "buckets \<Rightarrow> number \<Rightarrow> buckets" where
  "count_filtered bs p = bump (\<lambda>c. c\<lparr>n_filtered := n_filtered c + 1\<rparr>) (bucket_of p) bs"

text \<open>
  \<open>Object.entries\<close>: the properties whose key is an array index (a whole number from 0
  to \<open>2^32 - 2\<close>) come first, in ascending order, the other properties follow in
  insertion order.
\<close>

definition is_array_index :: "int \<Rightarrow> bool" where
  "is_array_index k \<longleftrightarrow> 0 \<le> k \<and> k < 2 ^ 32 - 1"

definition object_entries :: "(int \<times> 'a) list \<Rightarrow> (int \<times> 'a) list" where
  "object_entries kvs =
     sort_key fst (filter (\<lambda>kv. is_array_index (fst kv)) kvs)
     @ filter (\<lambda>kv. \<not> is_array_index (fst kv)) kvs"

text \<open>
  \<open>chartData\<close> of the price chart. The test \<open>isFinite(min)\<close>, \<open>isFinite(max)\<close> of the
  source always succeeds on the finite numbers of the model.
\<close>

definition chartData :: "price_trend \<Rightarrow> chart_point list" where
  "chartData priceTrend =
     (if length (current priceTrend) = 0 then []
      else
        (let allPrices = array_sort (\<lambda>a b. a - b) (map pd_price (current priceTrend));
             filteredPrices = array_sort (\<lambda>a b. a - b) (map pd_price (filtered priceTrend))
         in case allPrices of
              [] \<Rightarrow> []
            | p # ps \<Rightarrow>
                (let mn = \<lfloor>math_min p ps / real_of_int bucketSize\<rfloor> * bucketSize;
                     mx = \<lceil>math_max p ps / real_of_int bucketSize\<rceil> * bucketSize;
                     buckets0 = bucket_loop mn mx;
                     buckets1 = foldl count_all buckets0 allPrices;
                     buckets2 = foldl count_filtered buckets1 filteredPrices
                 in map (\<lambda>(k, counts).
                           \<lparr> cp_price = of_int k, cp_allFlights = n_all counts,
                             cp_filtered = n_filtered counts \<rparr>)
                        (object_entries buckets2))))"



text \<open>Price points for the scenarios.\<close>

definition point_at :: "number \<Rightarrow> price_data_point" where
  "point_at p = \<lparr> pd_price = p, pd_date = ''2024-03-15'', pd_airline = ''BA'', pd_stops = 0 \<rparr>"

definition trend_of :: "number list \<Rightarrow> number list \<Rightarrow> price_trend" where
  "trend_of allPrices filteredPrices =
     \<lparr> current = map point_at allPrices, filtered = map point_at filteredPrices,
       lowest = 0, highest = 0, average = 0 \<rparr>"

text \<open>The number of prices of a list that fall into the bucket starting at \<open>k\<close>.\<close>

definition in_bucket :: "int \<Rightarrow> number list \<Rightarrow> nat" where
  "in_bucket k ps = length (filter (\<lambda>p. bucket_of p = k) ps)"

text \<open>The chart point of one property of the bucket object, for the proofs.\<close>

definition chart_point_of :: "int \<times> bucket_counts \<Rightarrow> chart_point" where
  "chart_point_of kc =
     \<lparr> cp_price = of_int (fst kc), cp_allFlights = n_all (snd kc),
       cp_filtered = n_filtered (snd kc) \<rparr>"



section \<open>Properties of the FilterEngine\<close>







section \<open>Properties of the SortEngine\<close>

lemma comparison_key: "comparison fld a b = sort_key_of fld a - sort_key_of fld b"
  by (cases fld) (simp_all add: comparison_def sort_key_of_def)

text \<open>
  With these comparators the insertion coincides with the library's insertion by key:
  by the key itself in ascending direction, by the negated key in descending direction.
\<close>

lemma insert_by_asc:
  "insert_by (compareFlights fld Asc) x ys = insort_key (sort_key_of fld) x ys"
  by (induction ys) (simp_all add: compareFlights_def comparison_key)

lemma insert_by_desc:
  "insert_by (compareFlights fld Desc) x ys = insort_key (\<lambda>f. - sort_key_of fld f) x ys"
  by (induction ys) (simp_all add: compareFlights_def comparison_key)

lemma array_sort_asc: "array_sort (compareFlights fld Asc) xs = sort_key (sort_key_of fld) xs"
  by (induction xs) (simp_all add: insert_by_asc)

lemma array_sort_desc:
  "array_sort (compareFlights fld Desc) xs = sort_key (\<lambda>f. - sort_key_of fld f) xs"
  by (induction xs) (simp_all add: insert_by_desc)

lemma sortedFlights_stable:
  "filter (\<lambda>f. sort_key_of fld f = k) (sortedFlights xs fld dir)
     = filter (\<lambda>f. sort_key_of fld f = k) xs"
proof (cases dir)
  case Asc
  then show ?thesis by (simp add: sortedFlights_def array_sort_asc sort_key_stable)
next
  case Desc
  have "filter (\<lambda>f. - sort_key_of fld f = - k) (sort_key (\<lambda>f. - sort_key_of fld f) xs)
          = filter (\<lambda>f. - sort_key_of fld f = - k) xs"
    by (rule sort_key_stable)
  with Desc show ?thesis by (simp add: sortedFlights_def array_sort_desc)
qed

lemma sortedFlights_mset: "mset (sortedFlights xs fld dir) = mset xs"
  by (cases dir) (simp_all add: sortedFlights_def array_sort_asc array_sort_desc)

lemma sortedFlights_sorted_asc:
  "sorted (map (sort_key_of fld) (sortedFlights xs fld Asc))"
  by (simp add: sortedFlights_def array_sort_asc)

lemma sorted_uminus_rev: "sorted (map uminus (ys::real list)) \<Longrightarrow> sorted (rev ys)"
  by (induction ys) (auto simp: sorted_append)

lemma sortedFlights_sorted_desc:
  "sorted (rev (map (sort_key_of fld) (sortedFlights xs fld Desc)))"
proof -
  have "sorted (map (\<lambda>f. - sort_key_of fld f) (sortedFlights xs fld Desc))"
    by (simp add: sortedFlights_def array_sort_desc)
  then have "sorted (map uminus (map (sort_key_of fld) (sortedFlights xs fld Desc)))"
    by (simp add: comp_def)
  then show ?thesis by (rule sorted_uminus_rev)
qed

lemma sortedFlights_store_eq:
  assumes "flights < length st"
  shows "sortedFlights_store st flights fld dir
           = (st @ [sortedFlights (st ! flights) fld dir], length st)"
  using assms
  by (simp add: sortedFlights_store_def spread_copy_def sort_in_place_def sortedFlights_def
      nth_append)

text \<open>
  Claim C4. For every array of flights (a valid reference into the store), every sort
  field and every direction: the flights of any one key value stand in the returned
  array in the order they have in the input; the returned array is a newly allocated
  one, a permutation of the input, and the input array and every other array of the
  store keep their contents.
\<close>

theorem sort_stable_and_input_unchanged:
  assumes "flights < length st"
  shows "snd (sortedFlights_store st flights fld dir) \<noteq> flights
         \<and> fst (sortedFlights_store st flights fld dir) ! flights = st ! flights
         \<and> take (length st) (fst (sortedFlights_store st flights fld dir)) = st
         \<and> fst (sortedFlights_store st flights fld dir) ! snd (sortedFlights_store st flights fld dir)
             = sortedFlights (st ! flights) fld dir
         \<and> mset (sortedFlights (st ! flights) fld dir) = mset (st ! flights)
         \<and> filter (\<lambda>f. sort_key_of fld f = k) (sortedFlights (st ! flights) fld dir)
             = filter (\<lambda>f. sort_key_of fld f = k) (st ! flights)"
  using assms
  by (simp add: sortedFlights_store_eq nth_append sortedFlights_mset sortedFlights_stable)

theorem sort_stable_and_input_unchanged_witness:
  "(0::nat) < length [five_flights_120]
   \<and> snd (sortedFlights_store [five_flights_120] 0 Price Desc) \<noteq> 0
   \<and> fst (sortedFlights_store [five_flights_120] 0 Price Desc) ! 0 = five_flights_120
   \<and> filter (\<lambda>f. sort_key_of Price f = 120) (sortedFlights five_flights_120 Price Desc)
       = filter (\<lambda>f. sort_key_of Price f = 120) five_flights_120"
  using sort_stable_and_input_unchanged [of 0 "[five_flights_120]" Price Desc 120]
  by simp

lemma all_equal_keys_sorted_id:
  assumes "\<forall>f \<in> set xs. sort_key_of fld f = k"
  shows "sortedFlights xs fld dir = xs"
proof -
  have "set (sortedFlights xs fld dir) = set xs"
    using sortedFlights_mset [of xs fld dir] by (metis set_mset_mset)
  with assms have "filter (\<lambda>f. sort_key_of fld f = k) (sortedFlights xs fld dir)
      = sortedFlights xs fld dir"
    by simp
  moreover from assms have "filter (\<lambda>f. sort_key_of fld f = k) xs = xs" by simp
  ultimately show ?thesis using sortedFlights_stable [of fld k xs dir] by simp
qed

lemma five_flights_120_prices: "\<forall>f \<in> set five_flights_120. priceNumeric f = 120"
  by (simp add: five_flights_120_def sample_flight_def)

lemma five_flights_120_sorted:
  "sortedFlights five_flights_120 Price dir = five_flights_120"
  by (rule all_equal_keys_sorted_id [where k = 120])
     (simp add: sort_key_of_def five_flights_120_prices)

text \<open>
  Claim C5, as stated, fails: for five distinct flights that all cost 120 the descending
  sort is not the reverse of the ascending sort.
\<close>

theorem equal_prices_desc_not_reverse_counterexample:
  "sortedFlights five_flights_120 Price Desc \<noteq> rev (sortedFlights five_flights_120 Price Asc)"
  unfolding five_flights_120_sorted
  by (simp add: five_flights_120_def sample_flight_def)

text \<open>
  Claim C5, amended. For an input of five flights all priced 120, sorting by price in
  descending direction returns the same sequence as sorting in ascending direction:
  both return the flights in their input order.
\<close>

theorem equal_prices_desc_equals_asc:
  assumes "length flights = 5" and "\<forall>f \<in> set flights. priceNumeric f = 120"
  shows "sortedFlights flights Price Desc = sortedFlights flights Price Asc
         \<and> sortedFlights flights Price Asc = flights"
proof -
  from assms(2) have keys: "\<forall>f \<in> set flights. sort_key_of Price f = 120"
    by (simp add: sort_key_of_def)
  have "sortedFlights flights Price Desc = flights"
    using keys by (rule all_equal_keys_sorted_id)
  moreover have "sortedFlights flights Price Asc = flights"
    using keys by (rule all_equal_keys_sorted_id)
  ultimately show ?thesis by simp
qed

theorem equal_prices_desc_equals_asc_witness:
  "length five_flights_120 = 5
   \<and> map priceNumeric five_flights_120 = [120, 120, 120, 120, 120]
   \<and> sortedFlights five_flights_120 Price Desc = sortedFlights five_flights_120 Price Asc
   \<and> sortedFlights five_flights_120 Price Asc = five_flights_120"
proof -
  have len: "length five_flights_120 = 5" by (simp add: five_flights_120_def)
  have prices: "map priceNumeric five_flights_120 = [120, 120, 120, 120, 120]"
    by (simp add: five_flights_120_def sample_flight_def)
  show ?thesis
    using len prices equal_prices_desc_equals_asc [OF len five_flights_120_prices]
    by simp
qed

section \<open>Properties of the page window\<close>

lemma array_slice_window:
  assumes "0 \<le> start" "start \<le> stop"
  shows "array_slice xs start stop = take (nat (stop - start)) (drop (nat start) xs)"
proof (cases "start \<le> int (length xs)")
  case inside: True
  show ?thesis
  proof (cases "stop \<le> int (length xs)")
    case True
    with assms inside show ?thesis
      by (simp add: array_slice_def Let_def min_def)
  next
    case False
    with assms inside
    have "take (nat (stop - start)) (drop (nat start) xs) = drop (nat start) xs"
      by (intro take_all) simp
    moreover from assms inside False
    have "array_slice xs start stop = take (nat (int (length xs) - start)) (drop (nat start) xs)"
      by (simp add: array_slice_def Let_def min_def)
    moreover from assms inside
    have "take (nat (int (length xs) - start)) (drop (nat start) xs) = drop (nat start) xs"
      by (intro take_all) simp
    ultimately show ?thesis by simp
  qed
next
  case False
  with assms show ?thesis
    by (simp add: array_slice_def Let_def min_def)
qed

lemma paginated_window:
  assumes "1 \<le> page"
  shows "paginatedSortedFlights xs page = take 10 (drop (10 * nat (page - 1)) xs)"
proof -
  have "array_slice xs ((page - 1) * 10) ((page - 1) * 10 + 10)
        = take (nat ((page - 1) * 10 + 10 - (page - 1) * 10)) (drop (nat ((page - 1) * 10)) xs)"
    using assms by (intro array_slice_window) simp_all
  moreover have "nat ((page - 1) * 10) = 10 * nat (page - 1)"
    using assms by (simp add: nat_mult_distrib)
  ultimately show ?thesis
    by (simp add: paginatedSortedFlights_def pageSize_def Let_def)
qed

lemma totalFilteredPages_div: "totalFilteredPages xs = (int (length xs) + 9) div 10"
proof -
  have "\<lceil>real (length xs) / 10\<rceil> = \<lceil>real_of_int (int (length xs)) / real_of_int 10\<rceil>"
    by simp
  also have "\<dots> = - (- int (length xs) div 10)"
    by (rule ceiling_divide_eq_div)
  also have "\<dots> = (int (length xs) + 9) div 10"
    by presburger
  finally have "\<lceil>real (length xs) / 10\<rceil> = (int (length xs) + 9) div 10" .
  then show ?thesis by (simp add: totalFilteredPages_def pageSize_def)
qed

lemma paginated_length:
  assumes "1 \<le> page"
  shows "length (paginatedSortedFlights xs page) = min 10 (length xs - 10 * nat (page - 1))"
  using assms by (simp add: paginated_window)

lemma paginated_nth:
  assumes "1 \<le> page" "i < length (paginatedSortedFlights xs page)"
  shows "paginatedSortedFlights xs page ! i = xs ! (10 * nat (page - 1) + i)"
proof -
  from assms have "i < length xs - 10 * nat (page - 1)" and "i < 10"
    by (simp_all add: paginated_window)
  then have "10 * nat (page - 1) \<le> length xs" by simp
  with \<open>i < 10\<close> assms(1) show ?thesis
    by (simp add: paginated_window nth_drop)
qed

lemma paginated_beyond_last:
  assumes "totalFilteredPages xs < page"
  shows "paginatedSortedFlights xs page = []"
proof -
  from assms have "(int (length xs) + 9) div 10 < page"
    by (simp add: totalFilteredPages_div)
  then have "1 \<le> page" and "int (length xs) \<le> 10 * (page - 1)"
    by presburger+
  then have "10 * nat (page - 1) = nat (10 * (page - 1))"
    and "length xs \<le> nat (10 * (page - 1))"
    by (simp_all add: nat_mult_distrib le_nat_iff)
  then have "length xs \<le> 10 * nat (page - 1)" by simp
  with \<open>1 \<le> page\<close> show ?thesis by (simp add: paginated_window)
qed

lemma length_flights_23: "length flights_23 = 23"
  by (simp add: flights_23_def)

text \<open>
  Claim C8. The number of pages is the ceiling of the number of filtered and sorted
  flights divided by the page size 10; page \<open>page\<close> (counted from 1) holds the flights
  at the positions \<open>10 * (page - 1)\<close> up to, but excluding, \<open>10 * page\<close>, as far as the
  sequence reaches; with 23 flights there are 3 pages and page 3 holds exactly 3 flights.
\<close>

theorem page_count_and_window:
  "totalFilteredPages xs = \<lceil>real (length xs) / 10\<rceil>
   \<and> (1 \<le> page \<longrightarrow>
        length (paginatedSortedFlights xs page) = min 10 (length xs - 10 * nat (page - 1))
        \<and> (\<forall>i < length (paginatedSortedFlights xs page).
              paginatedSortedFlights xs page ! i = xs ! (10 * nat (page - 1) + i)))
   \<and> (length xs = 23 \<longrightarrow>
        totalFilteredPages xs = 3 \<and> length (paginatedSortedFlights xs 3) = 3)"
proof -
  have a: "totalFilteredPages xs = \<lceil>real (length xs) / 10\<rceil>"
    by (simp add: totalFilteredPages_def pageSize_def)
  have b: "length xs = 23 \<Longrightarrow> totalFilteredPages xs = 3"
    by (simp add: totalFilteredPages_div)
  have c: "length xs = 23 \<Longrightarrow> length (paginatedSortedFlights xs 3) = 3"
    by (simp add: paginated_length)
  show ?thesis using a b c by (simp add: paginated_length paginated_nth)
qed

theorem page_count_and_window_witness:
  "length flights_23 = 23 \<and> (1::int) \<le> 3
   \<and> totalFilteredPages flights_23 = 3
   \<and> length (paginatedSortedFlights flights_23 3) = 3
   \<and> (0::nat) < length (paginatedSortedFlights flights_23 3)
   \<and> paginatedSortedFlights flights_23 3 ! 0 = flights_23 ! 20"
  using page_count_and_window [of flights_23 3] length_flights_23
  by simp

section \<open>Properties of the page state\<close>

lemma sortedView_length: "length (sortedView s) = length (filteredFlights s)"
  unfolding sortedView_def by (metis sortedFlights_mset size_mset)

lemma filtered_on_page_3: "length (filteredFlights on_page_3) = 23"
  by (simp add: filteredFlights_def on_page_3_def applyFilters_def flights_23_def upt_rec
      keepFlight_def sample_flight_def defaultFilters_def getPriceRange_def
      getDurationRange_def)

lemma filtered_narrowed_to_5: "length (filteredFlights narrowed_to_5) = 5"
  by (simp add: narrowed_to_5_def filteredFlights_def on_page_3_def applyFilters_def
      flights_23_def upt_rec keepFlight_def sample_flight_def defaultFilters_def
      getPriceRange_def getDurationRange_def)

lemma currentPage_narrowed_to_5: "currentPage narrowed_to_5 = 3"
  by (simp add: narrowed_to_5_def on_page_3_def)

lemma totalPages_narrowed_to_5: "totalFilteredPages (sortedView narrowed_to_5) = 1"
  by (simp add: totalFilteredPages_div sortedView_length filtered_narrowed_to_5)

text \<open>
  Claim C3, as stated, fails: on page 3 of 23 flights, narrowing the price filter leaves
  5 flights, hence one page, and the page index is still 3, outside \<open>[1, max 1 1]\<close>;
  the page shown is empty.
\<close>

theorem page_index_not_clamped_counterexample:
  "length (sortedView on_page_3) = 23
   \<and> length (sortedView narrowed_to_5) = 5
   \<and> \<not> (1 \<le> currentPage narrowed_to_5
          \<and> currentPage narrowed_to_5 \<le> max 1 (totalFilteredPages (sortedView narrowed_to_5)))
   \<and> pageFlights narrowed_to_5 = []"
proof -
  have "pageFlights narrowed_to_5 = []"
    unfolding pageFlights_def
    by (rule paginated_beyond_last)
       (simp add: totalPages_narrowed_to_5 currentPage_narrowed_to_5)
  then show ?thesis
    by (simp add: sortedView_length filtered_on_page_3 filtered_narrowed_to_5
        totalPages_narrowed_to_5 currentPage_narrowed_to_5)
qed

text \<open>
  Claim C3, amended. A change of the filters or of the sort, and the arrival of flights,
  leave the page index as it is: it is not clamped, and a page index beyond the last
  page shows an empty slice. A change of the search sets the index to 1 when origin,
  destination or departure date differ from before, and leaves it otherwise.
\<close>

theorem page_index_kept_unless_search_changes:
  "currentPage (page_step s (UpdateFilter u)) = currentPage s
   \<and> currentPage (page_step s ResetFilters) = currentPage s
   \<and> currentPage (page_step s (ToggleSort field)) = currentPage s
   \<and> currentPage (page_step s (FlightsLoaded flights)) = currentPage s
   \<and> currentPage (page_step s (Navigate params))
       = (if origin params = origin (searchParams s)
             \<and> destination params = destination (searchParams s)
             \<and> departureDate params = departureDate (searchParams s)
          then currentPage s else 1)
   \<and> (totalFilteredPages (sortedView t) < currentPage t \<longrightarrow> pageFlights t = [])"
  by (simp add: pageFlights_def paginated_beyond_last)

theorem page_index_kept_unless_search_changes_witness:
  "totalFilteredPages (sortedView narrowed_to_5) < currentPage narrowed_to_5
   \<and> pageFlights narrowed_to_5 = []
   \<and> currentPage (page_step on_page_3 (UpdateFilter (SetPriceRange (100, 140)))) = 3
   \<and> currentPage (page_step on_page_3 (ToggleSort Duration)) = 3
   \<and> currentPage (page_step on_page_3 (Navigate (lhr_jfk\<lparr>adults := 2\<rparr>))) = 3
   \<and> currentPage (page_step on_page_3 (Navigate (lhr_jfk\<lparr>origin := Some ''LGW''\<rparr>))) = 1"
  using page_index_kept_unless_search_changes
    [of on_page_3 "SetPriceRange (100, 140)" Duration flights_23 "lhr_jfk\<lparr>adults := 2\<rparr>"
      narrowed_to_5]
    page_index_kept_unless_search_changes
    [of on_page_3 "SetPriceRange (100, 140)" Duration flights_23
      "lhr_jfk\<lparr>origin := Some ''LGW''\<rparr>" narrowed_to_5]
  by (simp add: totalPages_narrowed_to_5 currentPage_narrowed_to_5 on_page_3_def lhr_jfk_def)

section \<open>Properties of the filter bounds\<close>

lemma math_min_Min: "math_min x xs = Min (set (x # xs))"
proof (induction xs arbitrary: x)
  case Nil
  show ?case by simp
next
  case (Cons y ys)
  have "Min (set (x # y # ys)) = Min (insert (min x y) (set ys))"
    by (cases "ys = []") (simp_all add: min.assoc)
  with Cons show ?case by simp
qed

lemma math_max_Max: "math_max x xs = Max (set (x # xs))"
proof (induction xs arbitrary: x)
  case Nil
  show ?case by simp
next
  case (Cons y ys)
  have "Max (set (x # y # ys)) = Max (insert (max x y) (set ys))"
    by (cases "ys = []") (simp_all add: max.assoc)
  with Cons show ?case by simp
qed

lemma getPriceRange_rounded:
  "getPriceRange flights = rounded_default_range (0, 1000) (map priceNumeric flights)"
proof (cases flights)
  case Nil
  then show ?thesis by (simp add: getPriceRange_def rounded_default_range_def)
next
  case (Cons f fs)
  then show ?thesis
    by (simp add: getPriceRange_def rounded_default_range_def math_min_Min math_max_Max)
qed

lemma getDurationRange_rounded:
  "getDurationRange flights
     = rounded_default_range (0, 1440) (map (\<lambda>f. real (totalDuration f)) flights)"
proof (cases flights)
  case Nil
  then show ?thesis by (simp add: getDurationRange_def rounded_default_range_def)
next
  case (Cons f fs)
  then show ?thesis
    by (simp add: getDurationRange_def rounded_default_range_def math_min_Min math_max_Max)
qed

lemma whole_Min_Max:
  assumes "vs \<noteq> []" and "\<forall>v \<in> set vs. v \<in> \<int>"
  shows "of_int \<lfloor>Min (set vs)\<rfloor> = Min (set vs)" and "of_int \<lceil>Max (set vs)\<rceil> = Max (set vs)"
proof -
  from assms(1) have "Min (set vs) \<in> set vs" and "Max (set vs) \<in> set vs"
    by (simp_all add: Min_in Max_in)
  with assms(2) have "Min (set vs) \<in> \<int>" and "Max (set vs) \<in> \<int>" by blast+
  then show "of_int \<lfloor>Min (set vs)\<rfloor> = Min (set vs)" and "of_int \<lceil>Max (set vs)\<rceil> = Max (set vs)"
    by (simp_all add: of_int_floor of_int_ceiling)
qed

lemma rounded_whole:
  assumes "\<forall>v \<in> set vs. v \<in> \<int>"
  shows "rounded_default_range fb vs = spec_default_range fb vs"
  using whole_Min_Max [OF _ assms]
  by (simp add: rounded_default_range_def spec_default_range_def)

lemma getDurationRange_spec:
  "getDurationRange flights
     = spec_default_range (0, 1440) (map (\<lambda>f. real (totalDuration f)) flights)"
  unfolding getDurationRange_rounded
  by (rule rounded_whole) auto

lemma fractional_defaults:
  "getPriceRange fractional_flights = (99, 201)"
  "getDurationRange fractional_flights = (60, 95)"
  by (simp_all add: getPriceRange_def getDurationRange_def fractional_flights_def sample_flight_def)

text \<open>
  Claim C9, as stated, fails: for flights priced 99.50 and 200.25 the filter state that
  the hook builds as its default is not active according to the code, although its price
  range \<open>[99, 201]\<close> differs from the observed minimum and maximum.
\<close>

theorem defaults_are_rounded_counterexample:
  "\<not> hasActiveFilters (defaultFilters fractional_flights) fractional_flights
   \<and> spec_hasActiveFilters (defaultFilters fractional_flights) fractional_flights"
  by (simp add: hasActiveFilters_def spec_hasActiveFilters_def defaultFilters_def
      fractional_defaults spec_default_range_def)
     (simp add: fractional_flights_def sample_flight_def)

text \<open>
  Claim C9, amended. \<open>hasActiveFilters\<close> holds if and only if at least one dimension
  differs from its default, where the defaults are: no stops selected, no airlines
  selected, departure and arrival hours \<open>[0, 23]\<close>, the price range from the minimum
  price rounded down to the maximum price rounded up (\<open>[0, 1000]\<close> without flights),
  and the duration range from the minimum to the maximum duration (\<open>[0, 1440]\<close>
  without flights).
\<close>

theorem hasActiveFilters_iff_differs_from_rounded_defaults:
  "hasActiveFilters flt flights \<longleftrightarrow>
     stops flt \<noteq> []
     \<or> airlines flt \<noteq> []
     \<or> departureTimeRange flt \<noteq> (0, 23)
     \<or> arrivalTimeRange flt \<noteq> (0, 23)
     \<or> priceRange flt \<noteq> rounded_default_range (0, 1000) (map priceNumeric flights)
     \<or> duration_range flt
          \<noteq> spec_default_range (0, 1440) (map (\<lambda>f. real (totalDuration f)) flights)"
  unfolding hasActiveFilters_def Let_def getPriceRange_rounded getDurationRange_spec
  by (auto simp add: prod_eq_iff)

theorem hasActiveFilters_iff_differs_from_rounded_defaults_witness:
  "\<not> hasActiveFilters (defaultFilters fractional_flights) fractional_flights
   \<and> hasActiveFilters
        ((defaultFilters fractional_flights)\<lparr>priceRange := (199 / 2, 801 / 4)\<rparr>)
        fractional_flights
   \<and> hasActiveFilters ((defaultFilters []) \<lparr>stops := [''0'']\<rparr>) []
   \<and> \<not> hasActiveFilters (defaultFilters []) []"
  using hasActiveFilters_iff_differs_from_rounded_defaults
      [of "defaultFilters fractional_flights" fractional_flights]
    hasActiveFilters_iff_differs_from_rounded_defaults
      [of "(defaultFilters fractional_flights)\<lparr>priceRange := (199 / 2, 801 / 4)\<rparr>"
        fractional_flights]
    hasActiveFilters_iff_differs_from_rounded_defaults
      [of "(defaultFilters []) \<lparr>stops := [''0'']\<rparr>" "[]"]
    hasActiveFilters_iff_differs_from_rounded_defaults [of "defaultFilters []" "[]"]
  by (simp add: defaultFilters_def fractional_defaults getPriceRange_def getDurationRange_def
      rounded_default_range_def spec_default_range_def)
     (simp add: fractional_flights_def sample_flight_def)

section \<open>Properties of the Normalizer\<close>

lemma processFlightOffer_throws_iff:
  "processFlightOffer js off = Inl TypeError \<longleftrightarrow> missing_segments off"
  by (simp add: processFlightOffer_def missing_segments_def Let_def split: list.splits)

lemma array_map_throws:
  assumes "\<exists>x \<in> set xs. f x = Inl TypeError"
  shows "array_map f xs = Inl TypeError"
  using assms
proof (induction xs)
  case Nil
  then show ?case by simp
next
  case (Cons x xs)
  show ?case
  proof (cases "f x")
    case (Inl e)
    then show ?thesis by (cases e) simp
  next
    case (Inr y)
    with Cons.prems have "\<exists>x \<in> set xs. f x = Inl TypeError" by auto
    with Cons.IH Inr show ?thesis by simp
  qed
qed

lemma array_map_returns:
  assumes "\<forall>x \<in> set xs. \<exists>y. f x = Inr y"
  shows "array_map f xs = Inr (map (\<lambda>x. projr (f x)) xs)"
  using assms by (induction xs) auto

lemma processFlightOffer_returns:
  assumes "\<not> missing_segments off"
  shows "\<exists>f. processFlightOffer js off = Inr f"
proof (cases "processFlightOffer js off")
  case (Inl e)
  then have "processFlightOffer js off = Inl TypeError" by (cases e) simp
  with assms show ?thesis by (simp add: processFlightOffer_throws_iff)
next
  case (Inr f)
  then show ?thesis by blast
qed

lemma good_offer_not_missing: "\<not> missing_segments good_offer"
  by (simp add: missing_segments_def good_offer_def)

lemma offer_without_segments_missing: "missing_segments offer_without_segments"
  by (simp add: missing_segments_def offer_without_segments_def)

lemma bad_duration_is_zero: "parseDuration ''8 hours'' = 0"
  by (simp add: parseDuration_def)

text \<open>
  Claim C6, as stated, fails: a batch of a good offer, an offer whose first itinerary has
  no segments, and a good offer again is not normalised at all, because the exception of
  the second offer leaves \<open>map\<close>; and an offer with an unreadable duration does not
  fail, it is given the duration 0.
\<close>

theorem bad_offer_aborts_batch_counterexample:
  "\<not> isl (processFlightOffer sample_builtins good_offer)
   \<and> processFlightOffer sample_builtins offer_without_segments = Inl TypeError
   \<and> processedFlights sample_builtins (Some [good_offer, offer_without_segments, good_offer])
       = Inl TypeError
   \<and> \<not> isl (processFlightOffer sample_builtins offer_with_bad_duration)
   \<and> totalDuration (projr (processFlightOffer sample_builtins offer_with_bad_duration)) = 0"
  by (simp add: processedFlights_def processFlightOffer_def good_offer_def
      offer_without_segments_def offer_with_bad_duration_def bad_duration_is_zero)

text \<open>
  Claim C6, amended. \<open>processFlightOffer\<close> throws a \<open>TypeError\<close> exactly for an offer
  without itineraries or whose first itinerary has no segments; it does not return a
  flight with defaulted fields for it. The batch is normalised by \<open>map\<close> without a
  handler: when one offer of the batch is of that kind the whole normalisation throws and
  no offer of the batch is normalised; otherwise every offer is. A duration text without
  \<open>PT\<close> does not fail, it counts as 0 minutes.
\<close>

theorem missing_segments_throws_and_aborts_batch:
  "(processFlightOffer js off = Inl TypeError \<longleftrightarrow> missing_segments off)
   \<and> ((\<exists>off \<in> set offers. missing_segments off)
        \<longrightarrow> processedFlights js (Some offers) = Inl TypeError)
   \<and> ((\<forall>off \<in> set offers. \<not> missing_segments off)
        \<longrightarrow> processedFlights js (Some offers)
             = Inr (map (\<lambda>off. projr (processFlightOffer js off)) offers))
   \<and> (after_PT d = None \<longrightarrow> parseDuration d = 0)"
proof -
  have throws: "processedFlights js (Some offers) = Inl TypeError"
    if "\<exists>off \<in> set offers. missing_segments off"
    using that unfolding processedFlights_def
    by (simp add: array_map_throws processFlightOffer_throws_iff)
  have returns: "processedFlights js (Some offers)
      = Inr (map (\<lambda>off. projr (processFlightOffer js off)) offers)"
    if "\<forall>off \<in> set offers. \<not> missing_segments off"
    using that unfolding processedFlights_def
    by (simp add: array_map_returns processFlightOffer_returns)
  have "after_PT d = None \<Longrightarrow> parseDuration d = 0"
    by (simp add: parseDuration_def)
  with throws returns show ?thesis
    by (simp add: processFlightOffer_throws_iff)
qed

theorem missing_segments_throws_and_aborts_batch_witness:
  "missing_segments offer_without_segments
   \<and> processFlightOffer sample_builtins offer_without_segments = Inl TypeError
   \<and> processedFlights sample_builtins (Some [good_offer, offer_without_segments, good_offer])
       = Inl TypeError
   \<and> \<not> missing_segments good_offer
   \<and> processedFlights sample_builtins (Some [good_offer, good_offer])
       = Inr [projr (processFlightOffer sample_builtins good_offer),
              projr (processFlightOffer sample_builtins good_offer)]
   \<and> after_PT ''8 hours'' = None \<and> parseDuration ''8 hours'' = 0"
  using missing_segments_throws_and_aborts_batch
      [of sample_builtins offer_without_segments
        "[good_offer, offer_without_segments, good_offer]" "''8 hours''"]
    missing_segments_throws_and_aborts_batch
      [of sample_builtins good_offer "[good_offer, good_offer]" "''8 hours''"]
  by (simp add: good_offer_not_missing offer_without_segments_missing)

section \<open>Properties of the PriceAggregator\<close>

lemma bump_keys: "map fst (bump f b kvs) = map fst kvs"
  by (induction kvs) auto

lemma bump_map:
  assumes "distinct (map fst kvs)"
  shows "bump f b kvs = map (\<lambda>(k, c). (k, if k = b then f c else c)) kvs"
  using assms
proof (induction kvs)
  case Nil
  show ?case by simp
next
  case (Cons kv kvs)
  obtain k c where kv: "kv = (k, c)" by (cases kv)
  show ?case
  proof (cases "k = b")
    case True
    with Cons.prems kv have "b \<notin> fst ` set kvs" by simp
    then have "map (\<lambda>(k, c). (k, if k = b then f c else c)) kvs = kvs"
      by (intro map_idI) (auto simp: rev_image_eqI)
    with True kv show ?thesis by simp
  next
    case False
    with Cons kv show ?thesis by simp
  qed
qed

lemma foldl_count_all:
  assumes "distinct (map fst kvs)"
  shows "foldl count_all kvs ps
           = map (\<lambda>(k, c). (k, c\<lparr>n_all := n_all c + in_bucket k ps\<rparr>)) kvs"
  using assms
proof (induction ps arbitrary: kvs)
  case Nil
  then show ?case by (simp add: in_bucket_def case_prod_beta)
next
  case (Cons p ps)
  have step: "count_all kvs p
      = map (\<lambda>(k, c). (k, if k = bucket_of p then c\<lparr>n_all := n_all c + 1\<rparr> else c)) kvs"
    unfolding count_all_def using Cons.prems by (rule bump_map)
  have "map fst (count_all kvs p) = map fst kvs"
    by (simp add: count_all_def bump_keys)
  with Cons.prems have "distinct (map fst (count_all kvs p))" by simp
  then have "foldl count_all (count_all kvs p) ps
      = map (\<lambda>(k, c). (k, c\<lparr>n_all := n_all c + in_bucket k ps\<rparr>)) (count_all kvs p)"
    by (rule Cons.IH)
  also have "\<dots> = map (\<lambda>(k, c). (k, c\<lparr>n_all := n_all c + in_bucket k (p # ps)\<rparr>)) kvs"
    unfolding step by (auto simp add: in_bucket_def)
  finally show ?case by simp
qed

lemma foldl_count_filtered:
  assumes "distinct (map fst kvs)"
  shows "foldl count_filtered kvs ps
           = map (\<lambda>(k, c). (k, c\<lparr>n_filtered := n_filtered c + in_bucket k ps\<rparr>)) kvs"
  using assms
proof (induction ps arbitrary: kvs)
  case Nil
  then show ?case by (simp add: in_bucket_def case_prod_beta)
next
  case (Cons p ps)
  have step: "count_filtered kvs p
      = map (\<lambda>(k, c). (k, if k = bucket_of p then c\<lparr>n_filtered := n_filtered c + 1\<rparr> else c)) kvs"
    unfolding count_filtered_def using Cons.prems by (rule bump_map)
  have "map fst (count_filtered kvs p) = map fst kvs"
    by (simp add: count_filtered_def bump_keys)
  with Cons.prems have "distinct (map fst (count_filtered kvs p))" by simp
  then have "foldl count_filtered (count_filtered kvs p) ps
      = map (\<lambda>(k, c). (k, c\<lparr>n_filtered := n_filtered c + in_bucket k ps\<rparr>)) (count_filtered kvs p)"
    by (rule Cons.IH)
  also have "\<dots> = map (\<lambda>(k, c). (k, c\<lparr>n_filtered := n_filtered c + in_bucket k (p # ps)\<rparr>)) kvs"
    unfolding step by (auto simp add: in_bucket_def)
  finally show ?case by simp
qed

lemma bucket_loop_zero:
  "bucket_loop i mx = map (\<lambda>k. (k, \<lparr> n_all = 0, n_filtered = 0 \<rparr>)) (map fst (bucket_loop i mx))"
proof (induction i mx rule: bucket_loop.induct)
  case (1 i mx)
  show ?case
  proof (cases "i \<le> mx")
    case True
    with "1" show ?thesis by (subst (1 2) bucket_loop.simps) simp
  next
    case False
    then show ?thesis by (simp add: bucket_loop.simps)
  qed
qed

lemma bucket_loop_keys:
  "k \<in> set (map fst (bucket_loop i mx)) \<longleftrightarrow> i \<le> k \<and> k \<le> mx \<and> 50 dvd (k - i)"
proof (induction i mx rule: bucket_loop.induct)
  case (1 i mx)
  show ?case
  proof (cases "i \<le> mx")
    case True
    then have "set (map fst (bucket_loop i mx))
        = insert i (set (map fst (bucket_loop (i + bucketSize) mx)))"
      by (subst bucket_loop.simps) simp
    moreover have "k \<in> set (map fst (bucket_loop (i + bucketSize) mx))
        \<longleftrightarrow> i + 50 \<le> k \<and> k \<le> mx \<and> 50 dvd (k - (i + 50))"
      using "1" True by (simp add: bucketSize_def)
    ultimately show ?thesis using True by simp presburger
  next
    case False
    then show ?thesis by (simp add: bucket_loop.simps)
  qed
qed

lemma bucket_loop_distinct: "distinct (map fst (bucket_loop i mx))"
proof (induction i mx rule: bucket_loop.induct)
  case (1 i mx)
  show ?case
  proof (cases "i \<le> mx")
    case True
    have "i \<notin> set (map fst (bucket_loop (i + bucketSize) mx))"
      unfolding bucket_loop_keys by (simp add: bucketSize_def)
    with "1" True show ?thesis by (subst bucket_loop.simps) simp
  next
    case False
    then show ?thesis by (simp add: bucket_loop.simps)
  qed
qed

lemma bucket_loop_nonempty: "i \<le> mx \<Longrightarrow> bucket_loop i mx \<noteq> []"
  by (subst bucket_loop.simps) simp



lemma mset_object_entries: "mset (object_entries kvs) = mset kvs"
  by (simp add: object_entries_def)

lemma mset_insert_by: "mset (insert_by cmp x ys) = add_mset x (mset ys)"
  by (induction ys) simp_all

lemma mset_array_sort: "mset (array_sort cmp xs) = mset xs"
  by (induction xs) (simp_all add: mset_insert_by)

lemma in_bucket_mset: "mset ps = mset qs \<Longrightarrow> in_bucket k ps = in_bucket k qs"
  unfolding in_bucket_def by (metis mset_filter size_mset)

lemma in_bucket_mono: "mset ps \<subseteq># mset qs \<Longrightarrow> in_bucket k ps \<le> in_bucket k qs"
  unfolding in_bucket_def
  by (metis mset_filter size_mset multiset_filter_mono size_mset_mono)

lemma bucket_in_range:
  assumes "x \<in> set (p # ps)"
  shows "\<lfloor>math_min p ps / real_of_int bucketSize\<rfloor> * bucketSize \<le> bucket_of x"
    and "bucket_of x \<le> \<lceil>math_max p ps / real_of_int bucketSize\<rceil> * bucketSize"
    and "50 dvd (bucket_of x - \<lfloor>math_min p ps / real_of_int bucketSize\<rfloor> * bucketSize)"
proof -
  from assms have lo: "math_min p ps \<le> x" and hi: "x \<le> math_max p ps"
    unfolding math_min_Min math_max_Max by (simp_all del: set_simps)
  from lo have "\<lfloor>math_min p ps / 50\<rfloor> \<le> \<lfloor>x / 50\<rfloor>"
    by (intro floor_mono) simp
  then show "\<lfloor>math_min p ps / real_of_int bucketSize\<rfloor> * bucketSize \<le> bucket_of x"
    by (simp add: bucket_of_def bucketSize_def)
  from hi have "\<lceil>x / 50\<rceil> \<le> \<lceil>math_max p ps / 50\<rceil>"
    by (intro ceiling_mono) simp
  moreover have "\<lfloor>x / 50\<rfloor> \<le> \<lceil>x / 50\<rceil>" by (rule floor_le_ceiling)
  ultimately have "\<lfloor>x / 50\<rfloor> \<le> \<lceil>math_max p ps / 50\<rceil>" by linarith
  then show "bucket_of x \<le> \<lceil>math_max p ps / real_of_int bucketSize\<rceil> * bucketSize"
    by (simp add: bucket_of_def bucketSize_def)
  show "50 dvd (bucket_of x - \<lfloor>math_min p ps / real_of_int bucketSize\<rfloor> * bucketSize)"
    by (simp add: bucket_of_def bucketSize_def)
qed

lemma counted_buckets:
  assumes "distinct ks"
  shows "foldl count_filtered
           (foldl count_all (map (\<lambda>k. (k, \<lparr> n_all = 0, n_filtered = 0 \<rparr>)) ks) as) fs
         = map (\<lambda>k. (k, \<lparr> n_all = in_bucket k as, n_filtered = in_bucket k fs \<rparr>)) ks"
proof -
  let ?b0 = "map (\<lambda>k. (k, \<lparr> n_all = 0, n_filtered = 0 \<rparr>)) ks"
  have keys0: "map fst ?b0 = ks" by (simp add: comp_def)
  with assms have "distinct (map fst ?b0)" by simp
  then have b1: "foldl count_all ?b0 as
      = map (\<lambda>k. (k, \<lparr> n_all = in_bucket k as, n_filtered = 0 \<rparr>)) ks"
    by (simp add: foldl_count_all comp_def)
  have "map fst (map (\<lambda>k. (k, \<lparr> n_all = in_bucket k as, n_filtered = 0 \<rparr>)) ks) = ks"
    by (simp add: comp_def)
  with assms
  have "distinct (map fst (map (\<lambda>k. (k, \<lparr> n_all = in_bucket k as, n_filtered = 0 \<rparr>)) ks))"
    by simp
  then show ?thesis
    unfolding b1 by (simp add: foldl_count_filtered comp_def)
qed

lemma chartData_unfold:
  assumes "current t \<noteq> []"
    and "array_sort (\<lambda>a b. a - b) (map pd_price (current t)) = p # ps"
  shows "chartData t = map chart_point_of (object_entries
      (foldl count_filtered
         (foldl count_all
            (bucket_loop (\<lfloor>math_min p ps / real_of_int bucketSize\<rfloor> * bucketSize)
                         (\<lceil>math_max p ps / real_of_int bucketSize\<rceil> * bucketSize))
            (p # ps))
         (array_sort (\<lambda>a b. a - b) (map pd_price (filtered t)))))"
proof -
  have pt: "(\<lambda>(k, counts). \<lparr> cp_price = of_int k, cp_allFlights = n_all counts,
                             cp_filtered = n_filtered counts \<rparr>) = chart_point_of"
    by (rule ext) (simp add: chart_point_of_def case_prod_beta)
  from assms(1) have "length (current t) \<noteq> 0" by simp
  then show ?thesis
    unfolding chartData_def Let_def assms(2) pt
    by (simp only: if_False list.case)
qed

lemma chartData_form:
  assumes "current t \<noteq> []"
  shows "\<exists>ks. distinct ks \<and> ks \<noteq> []
           \<and> (\<forall>x \<in> set (map pd_price (current t)). bucket_of x \<in> set ks)
           \<and> chartData t
               = map chart_point_of
                   (object_entries
                     (map (\<lambda>k. (k, \<lparr> n_all = in_bucket k (map pd_price (current t)),
                                     n_filtered = in_bucket k (map pd_price (filtered t)) \<rparr>))
                        ks))"
proof -
  let ?all = "map pd_price (current t)"
  let ?fil = "map pd_price (filtered t)"
  let ?s = "array_sort (\<lambda>a b. a - b) ?all"
  let ?f = "array_sort (\<lambda>a b. a - b) ?fil"
  have ms: "mset ?s = mset ?all" and mf: "mset ?f = mset ?fil"
    by (rule mset_array_sort)+
  from ms have "length ?s = length ?all" by (rule mset_eq_length)
  with assms have "?s \<noteq> []" by auto
  then obtain p ps where s: "?s = p # ps" by (cases ?s) auto
  from ms have "set ?s = set ?all" by (rule mset_eq_setD)
  then have sets: "set (p # ps) = set ?all" by (simp only: s)
  let ?mn = "\<lfloor>math_min p ps / real_of_int bucketSize\<rfloor> * bucketSize"
  let ?mx = "\<lceil>math_max p ps / real_of_int bucketSize\<rceil> * bucketSize"
  let ?ks = "map fst (bucket_loop ?mn ?mx)"
  have dist: "distinct ?ks" by (rule bucket_loop_distinct)
  have "p \<in> set (p # ps)" by simp
  then have "?mn \<le> bucket_of p" and "bucket_of p \<le> ?mx"
    by (rule bucket_in_range)+
  then have "?mn \<le> ?mx" by linarith
  then have "bucket_loop ?mn ?mx \<noteq> []" by (rule bucket_loop_nonempty)
  then have nonempty: "?ks \<noteq> []" by simp
  have covered: "\<forall>x \<in> set ?all. bucket_of x \<in> set ?ks"
  proof
    fix x assume "x \<in> set ?all"
    with sets have x: "x \<in> set (p # ps)" by simp
    show "bucket_of x \<in> set ?ks"
      unfolding bucket_loop_keys
      using bucket_in_range(1) [OF x] bucket_in_range(2) [OF x] bucket_in_range(3) [OF x]
      by blast
  qed
  have b0: "bucket_loop ?mn ?mx = map (\<lambda>k. (k, \<lparr> n_all = 0, n_filtered = 0 \<rparr>)) ?ks"
    by (rule bucket_loop_zero)
  have "foldl count_filtered (foldl count_all (bucket_loop ?mn ?mx) ?s) ?f
      = map (\<lambda>k. (k, \<lparr> n_all = in_bucket k ?s, n_filtered = in_bucket k ?f \<rparr>)) ?ks"
    by (subst b0) (rule counted_buckets [OF dist])
  also have "\<dots> = map (\<lambda>k. (k, \<lparr> n_all = in_bucket k ?all, n_filtered = in_bucket k ?fil \<rparr>)) ?ks"
    by (simp only: in_bucket_mset [OF ms] in_bucket_mset [OF mf])
  finally have b2: "foldl count_filtered (foldl count_all (bucket_loop ?mn ?mx) (p # ps)) ?f
      = map (\<lambda>k. (k, \<lparr> n_all = in_bucket k ?all, n_filtered = in_bucket k ?fil \<rparr>)) ?ks"
    by (simp only: s)
  have form: "chartData t = map chart_point_of (object_entries
      (map (\<lambda>k. (k, \<lparr> n_all = in_bucket k ?all, n_filtered = in_bucket k ?fil \<rparr>)) ?ks))"
    using chartData_unfold [OF assms s] by (simp only: b2)
  show ?thesis
    by (rule exI [of _ ?ks]) (intro conjI dist nonempty covered form)
qed


lemma chartData_empty: "current t = [] \<Longrightarrow> chartData t = []"
  by (simp add: chartData_def)






lemma filteredCount_le_allCount:
  assumes "mset (map pd_price (filtered t)) \<subseteq># mset (map pd_price (current t))"
    and "pt \<in> set (chartData t)"
  shows "cp_filtered pt \<le> cp_allFlights pt"
proof (cases "current t = []")
  case True
  with assms(2) show ?thesis by (simp add: chartData_empty)
next
  case False
  from chartData_form [OF False] obtain ks where
    form: "chartData t = map chart_point_of (object_entries
        (map (\<lambda>k. (k, \<lparr> n_all = in_bucket k (map pd_price (current t)),
                        n_filtered = in_bucket k (map pd_price (filtered t)) \<rparr>)) ks))"
    by blast
  have "set (object_entries
        (map (\<lambda>k. (k, \<lparr> n_all = in_bucket k (map pd_price (current t)),
                        n_filtered = in_bucket k (map pd_price (filtered t)) \<rparr>)) ks))
      = set (map (\<lambda>k. (k, \<lparr> n_all = in_bucket k (map pd_price (current t)),
                        n_filtered = in_bucket k (map pd_price (filtered t)) \<rparr>)) ks)"
    by (rule mset_eq_setD [OF mset_object_entries])
  with assms(2) form obtain k where
    "pt = chart_point_of (k, \<lparr> n_all = in_bucket k (map pd_price (current t)),
                        n_filtered = in_bucket k (map pd_price (filtered t)) \<rparr>)"
    by auto
  then show ?thesis
    using in_bucket_mono [OF assms(1), of k] by (simp add: chart_point_of_def)
qed







text \<open>
  Claim C10. For every price trend whose filtered prices form a sub-multiset of its
  all-flights prices, every bucket of the chart has \<open>filteredCount \<le> allCount\<close>.
\<close>

theorem filtered_series_below_all_series:
  assumes "mset (map pd_price (filtered t)) \<subseteq># mset (map pd_price (current t))"
  shows "\<forall>pt \<in> set (chartData t). cp_filtered pt \<le> cp_allFlights pt"
  using assms by (blast intro: filteredCount_le_allCount)

theorem filtered_series_below_all_series_witness:
  "mset (map pd_price (filtered (trend_of [100, 250, 400] [100, 250])))
     \<subseteq># mset (map pd_price (current (trend_of [100, 250, 400] [100, 250])))
   \<and> list_all (\<lambda>pt. cp_filtered pt \<le> cp_allFlights pt)
        (chartData (trend_of [100, 250, 400] [100, 250]))
   \<and> map cp_allFlights (chartData (trend_of [100, 250, 400] [100, 250])) = [1, 0, 0, 1, 0, 0, 1]
   \<and> map cp_filtered (chartData (trend_of [100, 250, 400] [100, 250])) = [1, 0, 0, 1, 0, 0, 0]"
proof -
  have sub: "mset (map pd_price (filtered (trend_of [100, 250, 400] [100, 250])))
     \<subseteq># mset (map pd_price (current (trend_of [100, 250, 400] [100, 250])))"
    by (simp add: trend_of_def point_at_def)
  have all_series:
    "map cp_allFlights (chartData (trend_of [100, 250, 400] [100, 250])) = [1, 0, 0, 1, 0, 0, 1]"
    by code_simp
  have filtered_series:
    "map cp_filtered (chartData (trend_of [100, 250, 400] [100, 250])) = [1, 0, 0, 1, 0, 0, 0]"
    by code_simp
  from filtered_series_below_all_series [OF sub]
  have "list_all (\<lambda>pt. cp_filtered pt \<le> cp_allFlights pt)
        (chartData (trend_of [100, 250, 400] [100, 250]))"
    by (simp only: list_all_iff)
  with sub all_series filtered_series show ?thesis by (intro conjI)
qed

end
